theory Spec2Isabelle
  imports
    Complex_Main
    "HOL-Library.Multiset"
    "HOL-Library.Char_ord"
    "HOL-Library.List_Lexorder"
    "HOL-Library.Product_Lexorder"
begin

section \<open>Strings\<close>

text \<open>
  Ticket texts and keywords are strings over ASCII.  \<open>str.lower()\<close> maps the
  letters \<open>A\<close> to \<open>Z\<close> to \<open>a\<close> to \<open>z\<close> and leaves every other character alone.
  Python compares strings lexicographically by code point, which is the order
  of \<open>char list\<close> used here for \<open>creation_timestamp\<close>.
\<close>

definition lower_char :: "char \<Rightarrow> char" where
  "lower_char c =
     (case map_of (zip ''ABCDEFGHIJKLMNOPQRSTUVWXYZ'' ''abcdefghijklmnopqrstuvwxyz'') c of
        Some d \<Rightarrow> d
      | None \<Rightarrow> c)"

definition lower :: "string \<Rightarrow> string" where
  "lower s = map lower_char s"

text \<open>\<open>startswith t k\<close>: the text \<open>t\<close> begins with \<open>k\<close>.\<close>

fun startswith :: "string \<Rightarrow> string \<Rightarrow> bool" where
  "startswith t [] = True"
| "startswith [] (k # ks) = False"
| "startswith (c # t) (k # ks) = (c = k \<and> startswith t ks)"

text \<open>\<open>str_in k t\<close> is Python's \<open>k in t\<close> on strings: \<open>k\<close> occurs in \<open>t\<close> as a substring.\<close>

fun str_in :: "string \<Rightarrow> string \<Rightarrow> bool" where
  "str_in k [] = (k = [])"
| "str_in k (c # t) = (startswith (c # t) k \<or> str_in k t)"

text \<open>\<open>sep.join(parts)\<close>.\<close>

fun join :: "string \<Rightarrow> string list \<Rightarrow> string" where
  "join sep [] = []"
| "join sep [p] = p"
| "join sep (p # q # ps) = p @ sep @ join sep (q # ps)"

text \<open>\<open>str(n)\<close> of an integer, as an f-string renders it.\<close>

fun str_nat :: "nat \<Rightarrow> string" where
  "str_nat n =
     (if n < 10 then [char_of (48 + n)]
      else str_nat (n div 10) @ [char_of (48 + n mod 10)])"

declare str_nat.simps [simp del]

definition str_int :: "int \<Rightarrow> string" where
  "str_int i = (if i < 0 then CHR ''-'' # str_nat (nat (- i)) else str_nat (nat i))"

section \<open>Keyword tables\<close>

text \<open>
  \<open>self.skill_keywords\<close>: a dict, iterated in insertion order, so an association
  list in the order of the source.
\<close>

definition skill_keywords :: "(string \<times> string list) list" where
  "skill_keywords =
    [(''VPN_Troubleshooting'', [''vpn'', ''virtual private network'', ''tunnel'', ''authentication error'']),
     (''Networking'', [''network'', ''connectivity'', ''ping'', ''switch'', ''router'', ''outage'', ''dns'']),
     (''Hardware_Diagnostics'', [''hardware'', ''laptop'', ''desktop'', ''boot'', ''bios'', ''fan'', ''overheating'', ''port'', ''usb'', ''monitor'', ''projector'']),
     (''Laptop_Repair'', [''laptop'', ''battery'', ''charging'', ''screen'', ''keyboard'', ''fan'']),
     (''Microsoft_365'', [''outlook'', ''microsoft 365'', ''m365'', ''email'', ''onedrive'', ''teams'']),
     (''Active_Directory'', [''active directory'', ''ad'', ''account'', ''user account'', ''domain'', ''login'', ''password reset'', ''sso'', ''saml'']),
     (''Database_SQL'', [''database'', ''sql server'', ''query'', ''backup'', ''connection timeout'']),
     (''Network_Security'', [''security'', ''firewall'', ''intrusion'', ''breach'', ''malicious'']),
     (''Endpoint_Security'', [''malware'', ''antivirus'', ''trojan'', ''phishing'', ''security'']),
     (''Cloud_Azure'', [''azure'', ''app service'', ''cloud'']),
     (''Cloud_AWS'', [''aws'', ''cloud'']),
     (''Printer_Troubleshooting'', [''printer'', ''printing'']),
     (''SharePoint_Online'', [''sharepoint'', ''collaboration'', ''site'']),
     (''Voice_VoIP'', [''voip'', ''phone'', ''call'']),
     (''Web_Server_Apache_Nginx'', [''website'', ''web server'', ''502'', ''500'', ''404'']),
     (''Windows_OS'', [''windows'', ''desktop'', ''pc'']),
     (''Mac_OS'', [''mac'', ''macos'', ''macbook'']),
     (''Linux_Administration'', [''linux'', ''ubuntu'', ''samba'', ''permission'']),
     (''DevOps_CI_CD'', [''jenkins'', ''ci/cd'']),
     (''Virtualization_VMware'', [''vm'', ''virtual machine'', ''vmware'']),
     (''API_Troubleshooting'', [''api'']),
     (''DNS_Configuration'', [''dns'']),
     (''SSL_Certificates'', [''ssl'', ''certificate'']),
     (''Phishing_Analysis'', [''phishing'']),
     (''SIEM_Logging'', [''siem'', ''log'']),
     (''Identity_Management'', [''identity'', ''sso'']),
     (''SaaS_Integrations'', [''saas'', ''integration'']),
     (''Firewall_Configuration'', [''firewall'']),
     (''Switch_Configuration'', [''switch'']),
     (''Routing_Protocols'', [''routing'']),
     (''Network_Monitoring'', [''monitoring'']),
     (''Endpoint_Management'', [''endpoint'']),
     (''PowerShell_Scripting'', [''powershell'']),
     (''Software_Licensing'', [''license'']),
     (''Python_Scripting'', [''python'']),
     (''Kubernetes_Docker'', [''kubernetes'', ''docker'']),
     (''ETL_Processes'', [''etl'']),
     (''Data_Warehousing'', [''data warehouse'']),
     (''PowerBI_Tableau'', [''powerbi'', ''tableau'']),
     (''Cisco_IOS'', [''cisco'']),
     (''Network_Cabling'', [''cable'', ''cabling''])]"

text \<open>\<open>self.priority_keywords\<close>, read only at its four literal keys.\<close>

datatype tier = Critical | High | Medium | Low

fun priority_keywords :: "tier \<Rightarrow> string list" where
  "priority_keywords Critical =
     [''critical'', ''business-critical'', ''down'', ''outage'', ''not working'', ''failure'',
      ''failed'', ''crash'', ''urgent'', ''immediate'']"
| "priority_keywords High =
     [''high'', ''security'', ''breach'', ''malware'', ''slow'', ''performance'', ''locked'',
      ''cannot'', ''unable'', ''broken'']"
| "priority_keywords Medium = [''medium'', ''sync'', ''access'', ''permission'', ''configuration'']"
| "priority_keywords Low = [''request'', ''setup'', ''new user'', ''license'', ''standard'', ''routine'']"

section \<open>Skill extraction and priority classification\<close>

text \<open>
  The inner loop \<open>for keyword in keywords: if keyword in text_lower: ...; break\<close>
  and the loops of \<open>calculate_priority_score\<close> that return at the first hit.
\<close>

fun any_keyword_in :: "string list \<Rightarrow> string \<Rightarrow> bool" where
  "any_keyword_in [] t = False"
| "any_keyword_in (k # ks) t = (if str_in k t then True else any_keyword_in ks t)"

text \<open>
  The outer loop of \<open>extract_required_skills\<close> over the table: \<open>relevant_skills\<close>
  as it stands before \<open>list(set(...))\<close>, in the order the tags were matched.
\<close>

fun match_skills :: "(string \<times> string list) list \<Rightarrow> string \<Rightarrow> string list" where
  "match_skills [] t = []"
| "match_skills ((skill, keywords) # rest) t =
     (if any_keyword_in keywords t then skill # match_skills rest t else match_skills rest t)"

text \<open>
  \<open>list(set(xs))\<close>.  A Python set of strings is iterated in an order fixed by the
  strings' hashes and by the set's contents; the hashes change from one
  interpreter process to the next.  The order is therefore a parameter of the
  model: \<open>rank xs\<close> places each element of the set built from \<open>xs\<close>, and the
  set is listed by increasing place.  Every listing of the distinct elements
  arises from some \<open>rank\<close>.
\<close>

type_synonym set_order = "string list \<Rightarrow> string \<Rightarrow> nat"

definition list_of_set :: "set_order \<Rightarrow> string list \<Rightarrow> string list" where
  "list_of_set rank xs = sort_key (rank xs) (remdups xs)"

text \<open>\<open>extract_required_skills\<close> with \<open>self.skill_keywords\<close> as an argument.\<close>

definition extract_skills_from ::
  "(string \<times> string list) list \<Rightarrow> set_order \<Rightarrow> string \<Rightarrow> string list" where
  "extract_skills_from table rank text =
     (let text_lower = lower text in list_of_set rank (match_skills table text_lower))"

definition extract_required_skills :: "set_order \<Rightarrow> string \<Rightarrow> string list" where
  "extract_required_skills rank text = extract_skills_from skill_keywords rank text"

definition calculate_priority_score :: "string \<Rightarrow> int" where
  "calculate_priority_score text =
     (let text_lower = lower text in
      if any_keyword_in (priority_keywords Critical) text_lower then 10
      else if any_keyword_in (priority_keywords High) text_lower then 8
      else if any_keyword_in (priority_keywords Medium) text_lower then 5
      else if any_keyword_in (priority_keywords Low) text_lower then 2
      else 6)"

section \<open>Data model\<close>

text \<open>
  The JSON records.  Proficiencies, experience levels and loads are integers,
  as in the data set; the scores derived from them with \<open>/\<close>, \<open>* 1.5\<close> and
  \<open>* 0.5\<close> are exact rationals here.
\<close>

record agent =
  agent_id :: string
  name :: string
  skills :: "string \<rightharpoonup> int"
  experience_level :: int
  availability_status :: string
  current_load :: int

record ticket =
  ticket_id :: string
  title :: string
  description :: string
  creation_timestamp :: string

text \<open>The dict returned by \<open>calculate_agent_score\<close>.\<close>

record score_info =
  total_score :: rat
  skill_score :: rat
  experience_score :: rat
  workload_score :: rat
  availability_score :: rat
  priority_bonus :: rat

text \<open>An assignment record of the output; its keys \<open>ticket_id\<close> and \<open>title\<close> carry a prefix.\<close>

record assignment =
  a_ticket_id :: string
  a_title :: string
  assigned_agent_id :: string
  rationale :: string

datatype error = IndexError | KeyError

section \<open>Agent scoring\<close>

text \<open>The loop filling \<open>skill_scores\<close>.\<close>

fun collect_skill_scores :: "(string \<rightharpoonup> int) \<Rightarrow> string list \<Rightarrow> int list" where
  "collect_skill_scores sk [] = []"
| "collect_skill_scores sk (skill # rest) =
     (case sk skill of
        Some v \<Rightarrow> v # collect_skill_scores sk rest
      | None \<Rightarrow> 0 # collect_skill_scores sk rest)"

definition calculate_agent_score :: "agent \<Rightarrow> string list \<Rightarrow> int \<Rightarrow> int \<Rightarrow> score_info" where
  "calculate_agent_score agent required_skills priority_score load =
     (let skill_scores = collect_skill_scores (skills agent) required_skills;
          avg_skill_score =
            (if skill_scores \<noteq> []
             then of_int (sum_list skill_scores) / of_nat (length skill_scores)
             else (0::rat));
          skill_match_score = avg_skill_score * 10;
          experience_score = min (of_int (experience_level agent) * (3 / 2)) (20::rat);
          max_reasonable_load = (5::int);
          workload_score = max 0 ((max_reasonable_load - load) * 6);
          availability_score = (if availability_status agent = ''Available'' then 10 else (0::rat));
          priority_bonus = (if priority_score \<ge> 8 then of_int priority_score * (1 / 2) else (0::rat));
          total_score = skill_match_score + experience_score + of_int workload_score
                        + availability_score + priority_bonus
      in \<lparr>total_score = total_score,
          skill_score = skill_match_score,
          experience_score = experience_score,
          workload_score = of_int workload_score,
          availability_score = availability_score,
          priority_bonus = priority_bonus\<rparr>)"

section \<open>Rationale\<close>

text \<open>The loop filling \<open>relevant_skills\<close> with \<open>'skill' (proficiency)\<close>.\<close>

fun relevant_skill_texts :: "(string \<rightharpoonup> int) \<Rightarrow> string list \<Rightarrow> string list" where
  "relevant_skill_texts sk [] = []"
| "relevant_skill_texts sk (skill # rest) =
     (case sk skill of
        Some v \<Rightarrow>
          ([CHR 0x27] @ skill @ [CHR 0x27] @ '' ('' @ str_int v @ '')'') # relevant_skill_texts sk rest
      | None \<Rightarrow> relevant_skill_texts sk rest)"

definition create_assignment_rationale ::
  "agent \<Rightarrow> string list \<Rightarrow> score_info \<Rightarrow> int \<Rightarrow> string" where
  "create_assignment_rationale agent required_skills score_info priority =
     (let relevant_skills = relevant_skill_texts (skills agent) required_skills;
          skill_text = join '', '' (take 3 relevant_skills);
          part1 =
            (if relevant_skills \<noteq> []
             then ''Assigned to '' @ name agent @ '' ('' @ agent_id agent @ '') ''
                  @ ''based on expertise in '' @ skill_text
             else ''Assigned to '' @ name agent @ '' ('' @ agent_id agent @ '') ''
                  @ ''based on experience level ('' @ str_int (experience_level agent) @ '')'');
          part2 = (if workload_score score_info > 15 then [''and lower current workload''] else []);
          part3 =
            (if priority \<ge> 8 then [''High priority ticket requiring immediate attention''] else []);
          rationale_parts = [part1] @ part2 @ part3
      in join ''. '' rationale_parts @ ''.'')"

section \<open>Assignment engine\<close>

text \<open>An entry of \<open>tickets_with_metadata\<close>.\<close>

record ticket_info =
  ticket :: ticket
  priority :: int
  required_skills :: "string list"

text \<open>\<open>agent_loads\<close>, the dict comprehension over the roster: a later agent with the same id overwrites.\<close>

definition initial_loads :: "agent list \<Rightarrow> (string \<rightharpoonup> int)" where
  "initial_loads agents_data = fold (\<lambda>agent m. m(agent_id agent \<mapsto> current_load agent)) agents_data Map.empty"

text \<open>The loop preparing \<open>tickets_with_metadata\<close>.\<close>

definition annotate :: "set_order \<Rightarrow> ticket \<Rightarrow> ticket_info" where
  "annotate rank t =
     (let text = title t @ '' '' @ description t
      in \<lparr>ticket = t,
          priority = calculate_priority_score text,
          required_skills = extract_required_skills rank text\<rparr>)"

text \<open>The key of \<open>tickets_with_metadata.sort\<close>; tuples compare lexicographically.\<close>

definition sort_key_of :: "ticket_info \<Rightarrow> int \<times> string" where
  "sort_key_of x = (- priority x, creation_timestamp (ticket x))"

text \<open>\<open>list.sort\<close> is stable, and so is \<open>sort_key\<close>.\<close>

definition tickets_with_metadata :: "set_order \<Rightarrow> ticket list \<Rightarrow> ticket_info list" where
  "tickets_with_metadata rank tickets_data = sort_key sort_key_of (map (annotate rank) tickets_data)"

text \<open>
  The loop filling \<open>agent_scores\<close>; an entry is the pair of \<open>agent\<close> and \<open>score_info\<close>.
  \<open>agent_loads[...]\<close> raises \<open>KeyError\<close> on a missing key.
\<close>

fun score_agents ::
  "(string \<rightharpoonup> int) \<Rightarrow> string list \<Rightarrow> int \<Rightarrow> agent list \<Rightarrow> error + (agent \<times> score_info) list" where
  "score_agents loads rs p [] = Inr []"
| "score_agents loads rs p (agent # rest) =
     (case loads (agent_id agent) of
        None \<Rightarrow> Inl KeyError
      | Some load \<Rightarrow>
          (case score_agents loads rs p rest of
             Inl e \<Rightarrow> Inl e
           | Inr scored \<Rightarrow> Inr ((agent, calculate_agent_score agent rs p load) # scored)))"

text \<open>
  \<open>agent_scores.sort(key=total_score, reverse=True)\<close>: descending, and entries
  with equal totals keep their order, as \<open>reverse=True\<close> guarantees.
\<close>

definition sort_by_total_desc :: "(agent \<times> score_info) list \<Rightarrow> (agent \<times> score_info) list" where
  "sort_by_total_desc agent_scores = sort_key (\<lambda>x. - total_score (snd x)) agent_scores"

text \<open>\<open>agent_scores[0]\<close> after the sort; \<open>IndexError\<close> on an empty list.\<close>

definition best_match ::
  "(string \<rightharpoonup> int) \<Rightarrow> agent list \<Rightarrow> string list \<Rightarrow> int \<Rightarrow> error + (agent \<times> score_info)" where
  "best_match loads agents_data rs p =
     (case score_agents loads rs p agents_data of
        Inl e \<Rightarrow> Inl e
      | Inr agent_scores \<Rightarrow>
          (case sort_by_total_desc agent_scores of
             [] \<Rightarrow> Inl IndexError
           | best # _ \<Rightarrow> Inr best))"

record run_state =
  agent_loads :: "string \<rightharpoonup> int"
  assignments :: "assignment list"

text \<open>One iteration of the loop over the sorted tickets.\<close>

definition assign_step :: "agent list \<Rightarrow> run_state \<Rightarrow> ticket_info \<Rightarrow> error + run_state" where
  "assign_step agents_data st ti =
     (case best_match (agent_loads st) agents_data (required_skills ti) (priority ti) of
        Inl e \<Rightarrow> Inl e
      | Inr (best_agent, best_score) \<Rightarrow>
          (case agent_loads st (agent_id best_agent) of
             None \<Rightarrow> Inl KeyError
           | Some l \<Rightarrow>
               Inr \<lparr>agent_loads = (agent_loads st)(agent_id best_agent \<mapsto> l + 1),
                    assignments = assignments st @
                      [\<lparr>a_ticket_id = ticket_id (ticket ti),
                        a_title = title (ticket ti),
                        assigned_agent_id = agent_id best_agent,
                        rationale = create_assignment_rationale best_agent (required_skills ti)
                                      best_score (priority ti)\<rparr>]\<rparr>))"

fun process :: "agent list \<Rightarrow> ticket_info list \<Rightarrow> run_state \<Rightarrow> error + run_state" where
  "process agents_data [] st = Inr st"
| "process agents_data (ti # rest) st =
     (case assign_step agents_data st ti of
        Inl e \<Rightarrow> Inl e
      | Inr st' \<Rightarrow> process agents_data rest st')"

definition initial_state :: "agent list \<Rightarrow> run_state" where
  "initial_state agents_data = \<lparr>agent_loads = initial_loads agents_data, assignments = []\<rparr>"


definition assign_tickets :: "set_order \<Rightarrow> agent list \<Rightarrow> ticket list \<Rightarrow> error + assignment list" where
  "assign_tickets rank agents_data tickets_data =
     (case process agents_data (tickets_with_metadata rank tickets_data) (initial_state agents_data) of
        Inl e \<Rightarrow> Inl e
      | Inr st \<Rightarrow> Inr (assignments st))"

text \<open>
  \<open>main\<close>, as far as the output file goes: the argument is the content of
  \<open>dataset.json\<close> (\<open>None\<close> when the file is missing), the result is what is
  written to \<open>output_result.json\<close> (\<open>None\<close> when nothing is written).  The file
  is opened for writing only after \<open>assign_tickets\<close> has returned.
\<close>

record dataset =
  agents :: "agent list"
  tickets :: "ticket list"

fun main :: "set_order \<Rightarrow> dataset option \<Rightarrow> assignment list option" where
  "main rank None = None"
| "main rank (Some data) =
     (case assign_tickets rank (agents data) (tickets data) of
        Inl e \<Rightarrow> None
      | Inr sample_output \<Rightarrow> Some sample_output)"

section \<open>Vocabulary of the properties\<close>

text \<open>\<open>k\<close> occurs in \<open>t\<close> as a contiguous substring.\<close>

definition is_substring :: "string \<Rightarrow> string \<Rightarrow> bool" where
  "is_substring k t = (\<exists>p s. t = p @ k @ s)"

text \<open>Some phrase of the tier occurs in the lower-cased text.\<close>

definition tier_matches :: "tier \<Rightarrow> string \<Rightarrow> bool" where
  "tier_matches tr text = (\<exists>k\<in>set (priority_keywords tr). is_substring k (lower text))"


text \<open>The number of assignments in a list that went to the agent id.\<close>

definition count_assigned :: "string \<Rightarrow> assignment list \<Rightarrow> nat" where
  "count_assigned aid asgs = length (filter (\<lambda>a. assigned_agent_id a = aid) asgs)"




section \<open>Example inputs\<close>

definition alice :: agent where
  "alice = \<lparr>agent_id = ''agent_001'', name = ''Alice'',
     skills = [''VPN_Troubleshooting'' \<mapsto> 9, ''Networking'' \<mapsto> 8],
     experience_level = 7, availability_status = ''Available'', current_load = 2\<rparr>"

definition bob :: agent where
  "bob = \<lparr>agent_id = ''agent_002'', name = ''Bob'', skills = [''Networking'' \<mapsto> 5],
     experience_level = 12, availability_status = ''Away'', current_load = 0\<rparr>"

definition t1 :: ticket where
  "t1 = \<lparr>ticket_id = ''TKT-1'', title = ''VPN authentication error'',
     description = ''urgent, business down'', creation_timestamp = ''2025-01-02''\<rparr>"

definition t2 :: ticket where
  "t2 = \<lparr>ticket_id = ''TKT-2'', title = ''Network outage'',
     description = ''switch is down'', creation_timestamp = ''2025-01-01''\<rparr>"

definition t3 :: ticket where
  "t3 = \<lparr>ticket_id = ''TKT-3'', title = ''New user setup'',
     description = ''routine'', creation_timestamp = ''2025-01-01''\<rparr>"

text \<open>Two set orders: one lists a set as it was filled, one lists \<open>Networking\<close> first.\<close>

definition insertion_order :: set_order where
  "insertion_order xs s = 0"

definition networking_first :: set_order where
  "networking_first xs s = (if s = ''Networking'' then 0 else 1)"

text \<open>What \<open>assign_tickets\<close> returns for Alice, Bob and the three tickets.\<close>

definition example_output :: "assignment list" where
  "example_output =
    [\<lparr>a_ticket_id = ''TKT-2'', a_title = ''Network outage'', assigned_agent_id = ''agent_001'',
      rationale = ''Assigned to Alice (agent_001) based on expertise in '' @ [CHR 0x27]
        @ ''Networking'' @ [CHR 0x27]
        @ '' (8). and lower current workload. High priority ticket requiring immediate attention.''\<rparr>,
     \<lparr>a_ticket_id = ''TKT-1'', a_title = ''VPN authentication error'',
      assigned_agent_id = ''agent_001'',
      rationale = ''Assigned to Alice (agent_001) based on expertise in '' @ [CHR 0x27]
        @ ''VPN_Troubleshooting'' @ [CHR 0x27]
        @ '' (9). High priority ticket requiring immediate attention.''\<rparr>,
     \<lparr>a_ticket_id = ''TKT-3'', a_title = ''New user setup'', assigned_agent_id = ''agent_002'',
      rationale = ''Assigned to Bob (agent_002) based on experience level (12). and lower current workload.''\<rparr>]"



section \<open>Substrings and keyword matching\<close>

lemma startswith_iff: "startswith t k \<longleftrightarrow> (\<exists>s. t = k @ s)"
  by (induction t k rule: startswith.induct) auto

lemma str_in_iff: "str_in k t \<longleftrightarrow> is_substring k t"
proof (induction t)
  case Nil
  then show ?case by (auto simp: is_substring_def)
next
  case (Cons c t)
  show ?case
  proof
    assume "str_in k (c # t)"
    then consider "startswith (c # t) k" | "str_in k t" by auto
    then show "is_substring k (c # t)"
    proof cases
      case 1
      then obtain s where "c # t = k @ s" by (auto simp: startswith_iff)
      then have "c # t = [] @ k @ s" by simp
      then show ?thesis unfolding is_substring_def by blast
    next
      case 2
      then obtain p s where "t = p @ k @ s" using Cons.IH by (auto simp: is_substring_def)
      then have "c # t = (c # p) @ k @ s" by simp
      then show ?thesis unfolding is_substring_def by blast
    qed
  next
    assume "is_substring k (c # t)"
    then obtain p s where ps: "c # t = p @ k @ s" by (auto simp: is_substring_def)
    show "str_in k (c # t)"
    proof (cases p)
      case Nil
      with ps have "startswith (c # t) k" by (auto simp: startswith_iff)
      then show ?thesis by simp
    next
      case (Cons d p')
      with ps have "t = p' @ k @ s" by simp
      then have "is_substring k t" unfolding is_substring_def by blast
      then show ?thesis using Cons.IH by simp
    qed
  qed
qed

lemma any_keyword_in_iff: "any_keyword_in ks t \<longleftrightarrow> (\<exists>k\<in>set ks. is_substring k t)"
  by (induction ks) (auto simp: str_in_iff)

lemma set_match_skills:
  "set (match_skills table t) = {skill. \<exists>kws. (skill, kws) \<in> set table \<and> any_keyword_in kws t}"
  by (induction table t rule: match_skills.induct) auto

lemma set_list_of_set: "set (list_of_set rank xs) = set xs"
  by (simp add: list_of_set_def)

lemma distinct_list_of_set: "distinct (list_of_set rank xs)"
  by (simp add: list_of_set_def)


lemma tier_matches_code: "tier_matches tr text = any_keyword_in (priority_keywords tr) (lower text)"
  by (simp add: tier_matches_def any_keyword_in_iff)


section \<open>Scoring and the choice of the best agent\<close>


lemma hd_insort_key:
  "hd (insort_key f x ys) = (if ys = [] \<or> f x \<le> f (hd ys) then x else hd ys)"
  by (cases ys) auto

lemma sort_key_Nil_iff: "sort_key f xs = [] \<longleftrightarrow> xs = []"
  by (metis length_sort list.size(3) length_0_conv)

lemma hd_sort_key_first_min:
  "xs \<noteq> [] \<Longrightarrow>
   \<exists>i<length xs. hd (sort_key f xs) = xs ! i \<and>
     (\<forall>j<length xs. f (xs ! i) \<le> f (xs ! j)) \<and> (\<forall>j<i. f (xs ! i) < f (xs ! j))"
proof (induction xs)
  case Nil
  then show ?case by simp
next
  case (Cons x xs)
  show ?case
  proof (cases "xs = []")
    case True
    then show ?thesis by simp
  next
    case False
    then obtain i where i: "i < length xs" "hd (sort_key f xs) = xs ! i"
      "\<forall>j<length xs. f (xs ! i) \<le> f (xs ! j)" "\<forall>j<i. f (xs ! i) < f (xs ! j)"
      using Cons.IH by blast
    have ne: "sort_key f xs \<noteq> []" using False by (simp add: sort_key_Nil_iff)
    have hd: "hd (sort_key f (x # xs)) = (if f x \<le> f (xs ! i) then x else xs ! i)"
      using ne i(2) by (simp add: hd_insort_key)
    show ?thesis
    proof (cases "f x \<le> f (xs ! i)")
      case True
      have "\<forall>j<length (x # xs). f ((x # xs) ! 0) \<le> f ((x # xs) ! j)"
      proof (intro allI impI)
        fix j assume "j < length (x # xs)"
        then show "f ((x # xs) ! 0) \<le> f ((x # xs) ! j)"
          using True i(3) by (cases j) (auto intro: order_trans)
      qed
      then show ?thesis using hd True by (intro exI[of _ 0]) simp
    next
      case False
      then have lt: "f (xs ! i) < f x" by simp
      have a: "\<forall>j<length (x # xs). f ((x # xs) ! Suc i) \<le> f ((x # xs) ! j)"
      proof (intro allI impI)
        fix j assume "j < length (x # xs)"
        then show "f ((x # xs) ! Suc i) \<le> f ((x # xs) ! j)"
          using lt i(3) by (cases j) auto
      qed
      have b: "\<forall>j<Suc i. f ((x # xs) ! Suc i) < f ((x # xs) ! j)"
      proof (intro allI impI)
        fix j assume "j < Suc i"
        then show "f ((x # xs) ! Suc i) < f ((x # xs) ! j)"
          using lt i(4) by (cases j) auto
      qed
      show ?thesis using hd False a b i(1) by (intro exI[of _ "Suc i"]) simp
    qed
  qed
qed

lemma score_agents_Inr:
  "score_agents loads rs p ags = Inr sc \<Longrightarrow>
   length sc = length ags \<and>
   (\<forall>j<length ags. \<exists>l. loads (agent_id (ags ! j)) = Some l \<and>
       sc ! j = (ags ! j, calculate_agent_score (ags ! j) rs p l))"
proof (induction ags arbitrary: sc)
  case Nil
  then show ?case by simp
next
  case (Cons a ags)
  from Cons.prems obtain l sc' where l: "loads (agent_id a) = Some l"
    and sc': "score_agents loads rs p ags = Inr sc'"
    and sc: "sc = (a, calculate_agent_score a rs p l) # sc'"
    by (auto split: option.splits sum.splits)
  from Cons.IH[OF sc'] have ih: "length sc' = length ags"
    "\<forall>j<length ags. \<exists>l. loads (agent_id (ags ! j)) = Some l \<and>
       sc' ! j = (ags ! j, calculate_agent_score (ags ! j) rs p l)" by auto
  show ?case
  proof (intro conjI allI impI)
    show "length sc = length (a # ags)" using sc ih(1) by simp
  next
    fix j assume "j < length (a # ags)"
    then show "\<exists>l. loads (agent_id ((a # ags) ! j)) = Some l \<and>
       sc ! j = ((a # ags) ! j, calculate_agent_score ((a # ags) ! j) rs p l)"
      using l sc ih(2) by (cases j) auto
  qed
qed

lemma score_agents_total:
  "agent_id ` set ags \<subseteq> dom loads \<Longrightarrow> \<exists>sc. score_agents loads rs p ags = Inr sc"
  by (induction ags) (auto split: option.splits sum.splits)

lemma score_agents_Nil_iff: "score_agents loads rs p ags = Inr [] \<longleftrightarrow> ags = []"
  by (cases ags) (auto split: option.splits sum.splits)

lemma best_match_Inr:
  assumes "best_match loads ags rs p = Inr (b, s)"
  shows "\<exists>ld i. i < length ags \<and> b = ags ! i \<and>
     (\<forall>j<length ags. loads (agent_id (ags ! j)) = Some (ld j)) \<and>
     s = calculate_agent_score (ags ! i) rs p (ld i) \<and>
     (\<forall>j<length ags. total_score (calculate_agent_score (ags ! j) rs p (ld j))
          \<le> total_score (calculate_agent_score (ags ! i) rs p (ld i))) \<and>
     (\<forall>j<i. total_score (calculate_agent_score (ags ! j) rs p (ld j))
          < total_score (calculate_agent_score (ags ! i) rs p (ld i)))"
proof -
  from assms obtain sc where sc: "score_agents loads rs p ags = Inr sc"
    and srt: "sort_by_total_desc sc \<noteq> []" and hd: "hd (sort_by_total_desc sc) = (b, s)"
    by (auto simp: best_match_def split: sum.splits list.splits)
  from srt have ne: "sc \<noteq> []" by (auto simp: sort_by_total_desc_def)
  from score_agents_Inr[OF sc] have len: "length sc = length ags"
    and each: "\<forall>j<length ags. \<exists>l. loads (agent_id (ags ! j)) = Some l \<and>
       sc ! j = (ags ! j, calculate_agent_score (ags ! j) rs p l)" by auto
  define ld where "ld j = the (loads (agent_id (ags ! j)))" for j
  have scj: "loads (agent_id (ags ! j)) = Some (ld j) \<and>
       sc ! j = (ags ! j, calculate_agent_score (ags ! j) rs p (ld j))" if "j < length ags" for j
    using each that by (auto simp: ld_def)
  from hd_sort_key_first_min[OF ne, of "\<lambda>x. - total_score (snd x)"]
  obtain i where i: "i < length sc" "hd (sort_by_total_desc sc) = sc ! i"
    "\<forall>j<length sc. - total_score (snd (sc ! i)) \<le> - total_score (snd (sc ! j))"
    "\<forall>j<i. - total_score (snd (sc ! i)) < - total_score (snd (sc ! j))"
    unfolding sort_by_total_desc_def by blast
  have il: "i < length ags" using i(1) len by simp
  have bs: "b = ags ! i \<and> s = calculate_agent_score (ags ! i) rs p (ld i)"
  proof -
    have "(b, s) = sc ! i" using hd i(2) by simp
    also have "\<dots> = (ags ! i, calculate_agent_score (ags ! i) rs p (ld i))"
      using scj[OF il] by simp
    finally show ?thesis by simp
  qed
  have m1: "\<forall>j<length ags. total_score (calculate_agent_score (ags ! j) rs p (ld j))
          \<le> total_score (calculate_agent_score (ags ! i) rs p (ld i))"
    using i(3) len scj il by auto
  have m2: "\<forall>j<i. total_score (calculate_agent_score (ags ! j) rs p (ld j))
          < total_score (calculate_agent_score (ags ! i) rs p (ld i))"
  proof (intro allI impI)
    fix j assume "j < i"
    then have "j < length ags" using il by simp
    then show "total_score (calculate_agent_score (ags ! j) rs p (ld j))
          < total_score (calculate_agent_score (ags ! i) rs p (ld i))"
      using i(4) \<open>j < i\<close> scj[of j] scj[OF il] by auto
  qed
  show ?thesis
    using il bs m1 m2 scj by (intro exI[of _ ld] exI[of _ i]) auto
qed

lemma best_match_total:
  assumes "ags \<noteq> []" "agent_id ` set ags \<subseteq> dom loads"
  shows "\<exists>b s. best_match loads ags rs p = Inr (b, s)"
proof -
  obtain sc where sc: "score_agents loads rs p ags = Inr sc"
    using score_agents_total[OF assms(2)] by blast
  then have "sc \<noteq> []" using assms(1) score_agents_Nil_iff by blast
  then have "sort_by_total_desc sc \<noteq> []" by (simp add: sort_by_total_desc_def sort_key_Nil_iff)
  then show ?thesis using sc by (auto simp: best_match_def split: list.splits)
qed

lemma best_match_empty: "best_match loads [] rs p = Inl IndexError"
  by (simp add: best_match_def sort_by_total_desc_def)

section \<open>The assignment loop\<close>


lemma assign_step_Inr:
  assumes "assign_step ags st ti = Inr st'"
  shows "\<exists>b s l. best_match (agent_loads st) ags (required_skills ti) (priority ti) = Inr (b, s) \<and>
           agent_loads st (agent_id b) = Some l \<and>
           agent_loads st' = (agent_loads st)(agent_id b \<mapsto> l + 1) \<and>
           assignments st' = assignments st @
             [\<lparr>a_ticket_id = ticket_id (ticket ti), a_title = title (ticket ti),
               assigned_agent_id = agent_id b,
               rationale = create_assignment_rationale b (required_skills ti) s (priority ti)\<rparr>]"
  using assms by (auto simp: assign_step_def split: sum.splits option.splits prod.splits)

lemma assign_step_total:
  assumes "ags \<noteq> []" "agent_id ` set ags \<subseteq> dom (agent_loads st)"
  shows "\<exists>st'. assign_step ags st ti = Inr st'"
proof -
  obtain b s where bs: "best_match (agent_loads st) ags (required_skills ti) (priority ti) = Inr (b, s)"
    using best_match_total[OF assms] by blast
  from best_match_Inr[OF bs] obtain i where "i < length ags" "b = ags ! i" by blast
  then have "b \<in> set ags" by simp
  then have "agent_id b \<in> dom (agent_loads st)" using assms(2) by blast
  then show ?thesis using bs by (auto simp: assign_step_def)
qed

lemma assign_step_empty: "assign_step [] st ti = Inl IndexError"
  by (simp add: assign_step_def best_match_empty)

lemma assign_step_dom:
  assumes "assign_step ags st ti = Inr st'"
  shows "dom (agent_loads st') = dom (agent_loads st)"
proof -
  from assign_step_Inr[OF assms] obtain b :: agent and l where
    "agent_loads st (agent_id b) = Some l" "agent_loads st' = (agent_loads st)(agent_id b \<mapsto> l + 1)"
    by blast
  then show ?thesis by (simp add: insert_absorb domI)
qed

lemma assign_step_loads:
  assumes "assign_step ags st ti = Inr st'"
  shows "\<exists>asg. assignments st' = assignments st @ [asg] \<and>
           a_ticket_id asg = ticket_id (ticket ti) \<and> a_title asg = title (ticket ti) \<and>
           (\<forall>aid. agent_loads st' aid =
              map_option (\<lambda>l. l + int (count_assigned aid [asg])) (agent_loads st aid))"
proof -
  from assign_step_Inr[OF assms] obtain b s l where
    l: "agent_loads st (agent_id b) = Some l"
    and ld: "agent_loads st' = (agent_loads st)(agent_id b \<mapsto> l + 1)"
    and asg: "assignments st' = assignments st @
             [\<lparr>a_ticket_id = ticket_id (ticket ti), a_title = title (ticket ti),
               assigned_agent_id = agent_id b,
               rationale = create_assignment_rationale b (required_skills ti) s (priority ti)\<rparr>]"
    by blast
  have "agent_loads st' aid =
      map_option (\<lambda>l. l + int (count_assigned aid [\<lparr>a_ticket_id = ticket_id (ticket ti), a_title = title (ticket ti),
               assigned_agent_id = agent_id b,
               rationale = create_assignment_rationale b (required_skills ti) s (priority ti)\<rparr>])) (agent_loads st aid)" for aid
    using l ld by (cases "agent_loads st aid") (auto simp: count_assigned_def)
  then show ?thesis using asg by (intro exI conjI) auto
qed

lemma count_assigned_append:
  "count_assigned aid (xs @ ys) = count_assigned aid xs + count_assigned aid ys"
  by (simp add: count_assigned_def)

lemma process_Inr:
  "process ags tis st = Inr st' \<Longrightarrow>
   \<exists>new. assignments st' = assignments st @ new \<and>
     map a_ticket_id new = map (\<lambda>ti. ticket_id (ticket ti)) tis \<and>
     map a_title new = map (\<lambda>ti. title (ticket ti)) tis \<and>
     (\<forall>aid. agent_loads st' aid =
        map_option (\<lambda>l. l + int (count_assigned aid new)) (agent_loads st aid))"
proof (induction tis arbitrary: st)
  case Nil
  then show ?case by (simp add: count_assigned_def option.map_ident)
next
  case (Cons ti tis)
  from Cons.prems obtain st1 where s1: "assign_step ags st ti = Inr st1"
    and s2: "process ags tis st1 = Inr st'" by (auto split: sum.splits)
  from assign_step_loads[OF s1] obtain asg where a1: "assignments st1 = assignments st @ [asg]"
    "a_ticket_id asg = ticket_id (ticket ti)" "a_title asg = title (ticket ti)"
    "\<forall>aid. agent_loads st1 aid = map_option (\<lambda>l. l + int (count_assigned aid [asg])) (agent_loads st aid)"
    by blast
  from Cons.IH[OF s2] obtain new where a2: "assignments st' = assignments st1 @ new"
    "map a_ticket_id new = map (\<lambda>ti. ticket_id (ticket ti)) tis"
    "map a_title new = map (\<lambda>ti. title (ticket ti)) tis"
    "\<forall>aid. agent_loads st' aid = map_option (\<lambda>l. l + int (count_assigned aid new)) (agent_loads st1 aid)"
    by blast
  have "agent_loads st' aid = map_option (\<lambda>l. l + int (count_assigned aid (asg # new))) (agent_loads st aid)" for aid
    using a1(4) a2(4) count_assigned_append[of aid "[asg]" new]
    by (cases "agent_loads st aid") auto
  then show ?case using a1 a2 by (intro exI[of _ "asg # new"]) simp
qed

lemma process_total:
  "ags \<noteq> [] \<Longrightarrow> agent_id ` set ags \<subseteq> dom (agent_loads st) \<Longrightarrow> \<exists>st'. process ags tis st = Inr st'"
proof (induction tis arbitrary: st)
  case Nil
  then show ?case by simp
next
  case (Cons ti tis)
  obtain st1 where s1: "assign_step ags st ti = Inr st1"
    using assign_step_total[OF Cons.prems] by blast
  then have "agent_id ` set ags \<subseteq> dom (agent_loads st1)"
    using Cons.prems(2) assign_step_dom by blast
  from Cons.IH[OF Cons.prems(1) this] show ?case using s1 by simp
qed

lemma process_empty_roster: "tis \<noteq> [] \<Longrightarrow> process [] tis st = Inl IndexError"
  by (cases tis) (auto simp: assign_step_empty)

lemma fold_loads_dom:
  "dom (fold (\<lambda>agent m. m(agent_id agent \<mapsto> current_load agent)) ags m0) = dom m0 \<union> agent_id ` set ags"
  by (induction ags arbitrary: m0) auto



lemma initial_loads_dom: "dom (initial_loads ags) = agent_id ` set ags"
  by (simp add: initial_loads_def fold_loads_dom)


lemma length_tickets_with_metadata: "length (tickets_with_metadata rank ts) = length ts"
  by (simp add: tickets_with_metadata_def)

lemma mset_tickets_with_metadata: "mset (tickets_with_metadata rank ts) = mset (map (annotate rank) ts)"
  by (simp add: tickets_with_metadata_def)

lemma ticket_annotate: "ticket (annotate rank t) = t"
  by (simp add: annotate_def Let_def)

text \<open>With a roster that is not empty the run always returns a list.\<close>

lemma assign_tickets_total:
  assumes "ags \<noteq> []"
  shows "\<exists>out. assign_tickets rank ags ts = Inr out"
proof -
  have "agent_id ` set ags \<subseteq> dom (agent_loads (initial_state ags))"
    by (simp add: initial_state_def initial_loads_dom)
  from process_total[OF assms this]
  obtain st where "process ags (tickets_with_metadata rank ts) (initial_state ags) = Inr st"
    by blast
  then show ?thesis by (simp add: assign_tickets_def)
qed

lemma assign_tickets_Inr:
  assumes "assign_tickets rank ags ts = Inr out"
  shows "map a_ticket_id out = map (\<lambda>ti. ticket_id (ticket ti)) (tickets_with_metadata rank ts) \<and>
         map a_title out = map (\<lambda>ti. title (ticket ti)) (tickets_with_metadata rank ts)"
proof -
  from assms obtain st where st: "process ags (tickets_with_metadata rank ts) (initial_state ags) = Inr st"
    and out: "out = assignments st"
    by (auto simp: assign_tickets_def split: sum.splits)
  from process_Inr[OF st] show ?thesis using out by (auto simp: initial_state_def)
qed

lemma example_run:
  "assign_tickets insertion_order [alice, bob] [t1, t2, t3] = Inr example_output"
  by code_simp

lemma sorted_tickets_with_metadata:
  "sorted (map sort_key_of (tickets_with_metadata rank ts))"
  by (simp add: tickets_with_metadata_def)

lemma stable_tickets_with_metadata:
  "filter (\<lambda>x. sort_key_of x = key) (tickets_with_metadata rank ts) =
   filter (\<lambda>x. sort_key_of x = key) (map (annotate rank) ts)"
  unfolding tickets_with_metadata_def by (rule sort_key_stable)

lemma tickets_with_metadata_pairwise:
  assumes "i < j" "j < length (tickets_with_metadata rank ts)"
  shows "priority (tickets_with_metadata rank ts ! j) \<le> priority (tickets_with_metadata rank ts ! i) \<and>
     (priority (tickets_with_metadata rank ts ! i) = priority (tickets_with_metadata rank ts ! j) \<longrightarrow>
        creation_timestamp (ticket (tickets_with_metadata rank ts ! i))
          \<le> creation_timestamp (ticket (tickets_with_metadata rank ts ! j)))"
proof -
  let ?P = "tickets_with_metadata rank ts"
  have "map sort_key_of ?P ! i \<le> map sort_key_of ?P ! j"
    using sorted_tickets_with_metadata[of rank ts] assms
    by (simp add: sorted_iff_nth_mono_less del: nth_map)
  then have "sort_key_of (?P ! i) \<le> sort_key_of (?P ! j)" using assms by simp
  then show ?thesis by (auto simp: sort_key_of_def less_eq_prod_def)
qed




section \<open>Independence of the order of the required skills\<close>
















section \<open>Properties\<close>

text \<open>
  C1.  Whenever \<open>assign_tickets\<close> returns a list, that list has one assignment per
  input ticket: it is as long as the ticket list, and every ticket id occurs in
  it exactly as often as among the input tickets, so none is dropped or
  duplicated.
\<close>

theorem assign_tickets_one_assignment_per_ticket:
  assumes "assign_tickets rank agents_data tickets_data = Inr out"
  shows "length out = length tickets_data \<and>
         mset (map a_ticket_id out) = mset (map ticket_id tickets_data) \<and>
         (\<forall>tid. count_list (map a_ticket_id out) tid = count_list (map ticket_id tickets_data) tid)"
proof -
  have a: "map a_ticket_id out = map (\<lambda>ti. ticket_id (ticket ti)) (tickets_with_metadata rank tickets_data)"
    using assign_tickets_Inr[OF assms] by simp
  have "mset (map (\<lambda>ti. ticket_id (ticket ti)) (tickets_with_metadata rank tickets_data))
      = image_mset (\<lambda>ti. ticket_id (ticket ti)) (mset (tickets_with_metadata rank tickets_data))"
    by simp
  also have "\<dots> = image_mset (\<lambda>ti. ticket_id (ticket ti)) (mset (map (annotate rank) tickets_data))"
    by (simp only: mset_tickets_with_metadata)
  also have "\<dots> = mset (map ticket_id tickets_data)"
    by (simp add: ticket_annotate image_mset.compositionality comp_def)
  finally have m: "mset (map a_ticket_id out) = mset (map ticket_id tickets_data)" using a by simp
  have "length out = length (map a_ticket_id out)" by simp
  also have "\<dots> = length tickets_data" using a by (simp add: length_tickets_with_metadata)
  finally have l: "length out = length tickets_data" .
  have c: "count_list (map a_ticket_id out) tid = count_list (map ticket_id tickets_data) tid" for tid
    using m by (metis count_mset)
  show ?thesis using l m c by blast
qed

theorem assign_tickets_one_assignment_per_ticket_witness:
  "assign_tickets insertion_order [alice, bob] [t1, t2, t3] = Inr example_output \<and>
   length example_output = 3 \<and>
   mset (map a_ticket_id example_output) = mset [''TKT-1'', ''TKT-2'', ''TKT-3'']"
proof -
  from assign_tickets_one_assignment_per_ticket[OF example_run] example_run show ?thesis
    by (simp add: t1_def t2_def t3_def)
qed

text \<open>
  C2.  \<open>calculate_priority_score\<close> returns one of 2, 5, 6, 8 and 10, chosen by
  the first tier, in the order critical, high, medium, low, one of whose
  phrases is a substring of the lower-cased text: 10, 8, 5 or 2, and 6 when no
  tier matches.  A text with a critical and a low phrase scores 10, not 2.
\<close>

theorem calculate_priority_score_tiered:
  "calculate_priority_score text \<in> {2, 5, 6, 8, 10} \<and>
   calculate_priority_score text =
     (if tier_matches Critical text then 10
      else if tier_matches High text then 8
      else if tier_matches Medium text then 5
      else if tier_matches Low text then 2
      else 6) \<and>
   (tier_matches Critical text \<and> tier_matches Low text \<longrightarrow>
      calculate_priority_score text = 10 \<and> calculate_priority_score text \<noteq> 2)"
  unfolding calculate_priority_score_def tier_matches_def Let_def any_keyword_in_iff
  by simp

theorem calculate_priority_score_tiered_witness:
  "tier_matches Critical ''URGENT: new user setup'' \<and>
   tier_matches Low ''URGENT: new user setup'' \<and>
   calculate_priority_score ''URGENT: new user setup'' = 10"
  using calculate_priority_score_tiered[of "''URGENT: new user setup''"]
  by (simp add: tier_matches_code lower_def lower_char_def)

text \<open>
  C3.  A tag is in the result of \<open>extract_required_skills\<close> exactly when one of
  its phrases in the keyword table is a substring of the lower-cased text.  The
  result has no tag twice.  As a set it is the same for every order in which
  the set is listed and for every order in which the table is iterated.
\<close>

theorem extract_required_skills_membership:
  "(tag \<in> set (extract_required_skills rank text) \<longleftrightarrow>
      (\<exists>phrases. (tag, phrases) \<in> set skill_keywords \<and>
         (\<exists>k\<in>set phrases. is_substring k (lower text)))) \<and>
   distinct (extract_required_skills rank text) \<and>
   set (extract_required_skills rank' text) = set (extract_required_skills rank text) \<and>
   (mset table = mset skill_keywords \<longrightarrow>
      set (extract_skills_from table rank' text) = set (extract_required_skills rank text))"
proof -
  have *: "set (extract_skills_from tb r text) =
      {skill. \<exists>kws. (skill, kws) \<in> set tb \<and> (\<exists>k\<in>set kws. is_substring k (lower text))}" for tb r
    by (simp add: extract_skills_from_def set_list_of_set set_match_skills any_keyword_in_iff)
  have "mset table = mset skill_keywords \<Longrightarrow> set table = set skill_keywords"
    by (metis set_mset_mset)
  then show ?thesis
    unfolding extract_required_skills_def
    by (simp add: * ) (simp add: extract_skills_from_def distinct_list_of_set)
qed

theorem extract_required_skills_membership_witness:
  "mset (rev skill_keywords) = mset skill_keywords \<and>
   set (extract_skills_from (rev skill_keywords) networking_first ''VPN down, network outage'') =
   set (extract_required_skills insertion_order ''VPN down, network outage'') \<and>
   extract_required_skills insertion_order ''VPN down, network outage'' =
     [''VPN_Troubleshooting'', ''Networking'']"
proof -
  have m: "mset (rev skill_keywords) = mset skill_keywords" by simp
  have e: "extract_required_skills insertion_order ''VPN down, network outage'' =
     [''VPN_Troubleshooting'', ''Networking'']" by code_simp
  from extract_required_skills_membership[of _ insertion_order "''VPN down, network outage''"
      networking_first "rev skill_keywords"] m e
  show ?thesis by blast
qed


text \<open>
  C5.  The workload component does not increase when the load increases, is 0
  for every load of 5 or more, and is never negative.
\<close>

theorem workload_score_monotone:
  "(la \<le> lb \<longrightarrow> workload_score (calculate_agent_score a rs p lb)
                   \<le> workload_score (calculate_agent_score a rs p la)) \<and>
   (5 \<le> l \<longrightarrow> workload_score (calculate_agent_score a rs p l) = 0) \<and>
   0 \<le> workload_score (calculate_agent_score a rs p l)"
  by (auto simp: calculate_agent_score_def Let_def max_def)

theorem workload_score_monotone_witness:
  "(1::int) \<le> 3 \<and>
   workload_score (calculate_agent_score alice [''Networking''] 10 3) = 12 \<and>
   workload_score (calculate_agent_score alice [''Networking''] 10 1) = 24 \<and>
   (5::int) \<le> 7 \<and>
   workload_score (calculate_agent_score alice [''Networking''] 10 7) = 0"
  using workload_score_monotone[of 1 3 alice "[''Networking'']" 10 7]
  by (simp add: calculate_agent_score_def Let_def)

text \<open>
  C6.  The assignments returned by \<open>assign_tickets\<close> follow the processing
  order, not the input order: the annotated tickets sorted by priority, highest
  first, and within one priority by \<open>creation_timestamp\<close>, oldest first.  The
  sort is stable: the tickets with one and the same key keep their input order.
  So of two tickets of one priority the one with the smaller timestamp never
  comes after the other.
\<close>

theorem assign_tickets_processing_order:
  assumes "assign_tickets rank agents_data tickets_data = Inr out"
  shows "map a_ticket_id out = map (\<lambda>ti. ticket_id (ticket ti)) (tickets_with_metadata rank tickets_data) \<and>
     map a_title out = map (\<lambda>ti. title (ticket ti)) (tickets_with_metadata rank tickets_data) \<and>
     mset (tickets_with_metadata rank tickets_data) = mset (map (annotate rank) tickets_data) \<and>
     (\<forall>i j. i < j \<and> j < length (tickets_with_metadata rank tickets_data) \<longrightarrow>
        priority (tickets_with_metadata rank tickets_data ! j)
          \<le> priority (tickets_with_metadata rank tickets_data ! i) \<and>
        (priority (tickets_with_metadata rank tickets_data ! i)
           = priority (tickets_with_metadata rank tickets_data ! j) \<longrightarrow>
         creation_timestamp (ticket (tickets_with_metadata rank tickets_data ! i))
           \<le> creation_timestamp (ticket (tickets_with_metadata rank tickets_data ! j)))) \<and>
     (\<forall>key. filter (\<lambda>x. sort_key_of x = key) (tickets_with_metadata rank tickets_data) =
            filter (\<lambda>x. sort_key_of x = key) (map (annotate rank) tickets_data))"
  using assign_tickets_Inr[OF assms] mset_tickets_with_metadata[of rank tickets_data]
    tickets_with_metadata_pairwise[of _ _ rank tickets_data]
    stable_tickets_with_metadata[of _ rank tickets_data]
  by blast


theorem assign_tickets_processing_order_witness:
  "assign_tickets insertion_order [alice, bob] [t1, t2, t3] = Inr example_output \<and>
   map a_ticket_id example_output = [''TKT-2'', ''TKT-1'', ''TKT-3''] \<and>
   map (\<lambda>ti. ticket_id (ticket ti)) (tickets_with_metadata insertion_order [t1, t2, t3])
     = [''TKT-2'', ''TKT-1'', ''TKT-3'']"
proof -
  have ids: "map a_ticket_id example_output = [''TKT-2'', ''TKT-1'', ''TKT-3'']"
    by (simp add: example_output_def)
  from assign_tickets_processing_order[OF example_run] ids example_run show ?thesis by simp
qed














text \<open>
  C10, as stated, fails.  With an empty roster and no ticket the loop body never
  runs: \<open>assign_tickets\<close> returns the empty list and \<open>main\<close> writes it.
\<close>

theorem empty_roster_no_ticket_returns:
  "assign_tickets insertion_order [] [] = Inr [] \<and>
   main insertion_order (Some \<lparr>agents = [], tickets = []\<rparr>) = Some []"
  by (simp add: assign_tickets_def tickets_with_metadata_def initial_state_def)


text \<open>
  C10, amended.  With an empty roster and at least one ticket \<open>assign_tickets\<close>
  raises \<open>IndexError\<close> at \<open>agent_scores[0]\<close> and returns no list, and \<open>main\<close>
  writes nothing.  \<open>main\<close> writes a list exactly when \<open>assign_tickets\<close> has
  returned it, so the output is the whole batch or nothing.
\<close>

theorem empty_roster_with_tickets_fails:
  "(tickets_data \<noteq> [] \<longrightarrow>
      assign_tickets rank [] tickets_data = Inl IndexError \<and>
      main rank (Some \<lparr>agents = [], tickets = tickets_data\<rparr>) = None) \<and>
   (main rank d = Some out \<longleftrightarrow>
      (\<exists>data. d = Some data \<and> assign_tickets rank (agents data) (tickets data) = Inr out))"
proof -
  have a: "assign_tickets rank [] tickets_data = Inl IndexError" if "tickets_data \<noteq> []"
  proof -
    have "tickets_with_metadata rank tickets_data \<noteq> []"
      using that length_tickets_with_metadata[of rank tickets_data] by auto
    then show ?thesis by (simp add: assign_tickets_def process_empty_roster)
  qed
  have b: "main rank d = Some out \<longleftrightarrow>
      (\<exists>data. d = Some data \<and> assign_tickets rank (agents data) (tickets data) = Inr out)"
    by (cases d) (auto split: sum.splits)
  show ?thesis using a b by simp
qed


theorem empty_roster_with_tickets_fails_witness:
  "[t1] \<noteq> [] \<and> assign_tickets insertion_order [] [t1] = Inl IndexError \<and>
   main insertion_order (Some \<lparr>agents = [], tickets = [t1]\<rparr>) = None"
  using empty_roster_with_tickets_fails[of "[t1]" insertion_order] by simp

end
